theory Spec2Isabelle
  imports
    Main
    "HOL-Library.AList"
    "HOL-Library.Char_ord"
    "HOL-Library.List_Lexorder"
    "HOL-Library.Multiset"
begin

section \<open>JSON values and Python dictionaries\<close>

text \<open>
  The views of \<^verbatim>\<open>InvenTree/views.py\<close> build Python dictionaries and hand them to
  \<^verbatim>\<open>JsonResponse\<close>. A JSON value is modelled by the datatype below. A Python \<^verbatim>\<open>dict\<close>
  is an association list in insertion order: the literal \<^verbatim>\<open>{'a': x, 'b': y}\<close> is
  \<open>[(''a'', x), (''b'', y)]\<close>, the assignment \<^verbatim>\<open>d[k] = v\<close> is \<open>AList.update k v d\<close>
  (it overwrites the value of a key that is present, in place, and appends a new key at
  the end), \<^verbatim>\<open>d[k]\<close> is \<open>map_of d k\<close> and the keys are \<open>map fst d\<close>.
  Strings are compared lexicographically, character by character.
\<close>

datatype json =
    JNull
  | JBool bool
  | JInt int
  | JStr string
  | JList "json list"
  | JObj "(string \<times> json) list"

type_synonym 'v dict = "(string \<times> 'v) list"

definition has_key :: "string \<Rightarrow> 'v dict \<Rightarrow> bool" where
  "has_key k d = (k \<in> set (map fst d))"

section \<open>TreeSerializer\<close>

text \<open>
  A record of a tree model, as \<^verbatim>\<open>TreeSerializer\<close> reads it: \<^verbatim>\<open>item.id\<close>,
  \<^verbatim>\<open>item.name\<close>, the parent reference (\<open>None\<close> for a top-level record), the result of
  \<^verbatim>\<open>item.get_absolute_url()\<close> and \<^verbatim>\<open>item.stock_item_count\<close> (both defined with the
  model class, outside \<^verbatim>\<open>views.py\<close>, and taken as given for each record). The table of
  the model is the list of its rows.
\<close>

record item =
  item_id :: int
  name :: string
  parent :: "int option"
  get_absolute_url :: string
  stock_item_count :: int

text \<open>
  Modelled from the spec: the \<^verbatim>\<open>children\<close> relation of the tree model is declared
  with the model class, which is not part of \<^verbatim>\<open>views.py\<close>. By the spec a record has
  "an optional parent reference (self-referential, forming a tree)"; the children of a
  record are the rows whose parent reference is that record.
\<close>

definition children :: "item list \<Rightarrow> item \<Rightarrow> item list" where
  "children db it = filter (\<lambda>c. parent c = Some (item_id it)) db"

text \<open>
  Modelled from the spec: the \<^verbatim>\<open>has_children\<close> property of the tree model is not part
  of \<^verbatim>\<open>views.py\<close>. By the spec it tells whether "the underlying record has at least one
  child record".
\<close>

definition has_children :: "item list \<Rightarrow> item \<Rightarrow> bool" where
  "has_children db it = (children db it \<noteq> [])"

text \<open>\<^verbatim>\<open>queryset.order_by('name')\<close>: the rows in ascending order of their names.\<close>

definition order_by_name :: "item list \<Rightarrow> item list" where
  "order_by_name xs = sort_key name xs"

text \<open>
  \<^verbatim>\<open>itemToJson\<close> calls itself on every child. Nothing in the code bounds the depth of
  the recursion, so the model carries the number of nested calls that are still allowed:
  with none left the result is \<open>None\<close> (the call does not return a node). The loop that
  appends the node of each child to \<^verbatim>\<open>nodes\<close> is the \<open>map\<close> over the ordered children;
  \<open>those\<close> gives \<open>None\<close> as soon as one child has no node.
\<close>

fun itemToJson :: "item list \<Rightarrow> nat \<Rightarrow> item \<Rightarrow> json option" where
  "itemToJson db 0 it = None"
| "itemToJson db (Suc depth) it =
     (let data = [(''pk'', JInt (item_id it)),
                  (''text'', JStr (name it)),
                  (''href'', JStr (get_absolute_url it)),
                  (''tags'', JList [JInt (stock_item_count it)])]
      in if has_children db it then
           (case those (map (itemToJson db depth) (order_by_name (children db it))) of
              None \<Rightarrow> None
            | Some nodes \<Rightarrow> Some (JObj (AList.update ''nodes'' (JList nodes) data)))
         else Some (JObj data))"

text \<open>
  A \<^verbatim>\<open>TreeSerializer\<close> view: the title and the root URL of the subclass (the default
  \<^verbatim>\<open>root_url\<close> is \<open>''#''\<close>) and the rows of \<^verbatim>\<open>self.model.objects\<close>.
\<close>

record tree_view =
  title :: string
  root_url :: string
  objects :: "item list"

definition default_root_url :: string where
  "default_root_url = ''#''"

text \<open>The loop of \<^verbatim>\<open>get\<close> over the top-level records, with its two accumulators.\<close>

fun get_loop :: "item list \<Rightarrow> nat \<Rightarrow> item list \<Rightarrow> json list \<Rightarrow> int \<Rightarrow> (json list \<times> int) option" where
  "get_loop db depth [] nodes top_count = Some (nodes, top_count)"
| "get_loop db depth (it # items) nodes top_count =
     (case itemToJson db depth it of
        None \<Rightarrow> None
      | Some node \<Rightarrow> get_loop db depth items (nodes @ [node]) (top_count + stock_item_count it))"

definition TreeSerializer_get :: "tree_view \<Rightarrow> nat \<Rightarrow> json option" where
  "TreeSerializer_get v depth =
     (let top_items = order_by_name (filter (\<lambda>i. parent i = None) (objects v))
      in case get_loop (objects v) depth top_items [] 0 of
           None \<Rightarrow> None
         | Some (nodes, top_count) \<Rightarrow>
             (let top = [(''pk'', JNull),
                         (''text'', JStr (title v)),
                         (''href'', JStr (root_url v)),
                         (''nodes'', JList nodes),
                         (''tags'', JList [JInt top_count])];
                  response = [(''tree'', JList [JObj top])]
              in Some (JObj response)))"

subsection \<open>Reading the emitted tree\<close>

text \<open>The name a node shows: the string under its \<^verbatim>\<open>text\<close> key.\<close>

definition node_text :: "json \<Rightarrow> string option" where
  "node_text j =
     (case j of
        JObj kvs \<Rightarrow> (case map_of kvs ''text'' of Some (JStr s) \<Rightarrow> Some s | _ \<Rightarrow> None)
      | _ \<Rightarrow> None)"

lemma size_map_of:
  "map_of kvs k = Some v \<Longrightarrow> size v < Suc (size_list (size_prod (\<lambda>_. 0) size) kvs)"
  by (induction kvs) (auto split: if_splits)

lemma size_in_set: "x \<in> set ns \<Longrightarrow> size (x::json) < Suc (size_list size ns)"
  by (induction ns) auto

text \<open>
  A node has its siblings in order when, wherever a \<^verbatim>\<open>nodes\<close> key is present in it or
  below it, the value is a list of nodes whose names ascend.
\<close>

function siblings_sorted :: "json \<Rightarrow> bool" where
  "siblings_sorted (JObj kvs) =
     (case map_of kvs ''nodes'' of
        None \<Rightarrow> True
      | Some (JList ns) \<Rightarrow>
          (case those (map node_text ns) of None \<Rightarrow> False | Some names \<Rightarrow> sorted names)
          \<and> list_all siblings_sorted ns
      | Some _ \<Rightarrow> False)"
| "siblings_sorted JNull = False"
| "siblings_sorted (JBool b) = False"
| "siblings_sorted (JInt i) = False"
| "siblings_sorted (JStr s) = False"
| "siblings_sorted (JList xs) = False"
  by pat_completeness auto
termination
proof (relation "measure size")
  show "wf (measure (size :: json \<Rightarrow> nat))" by simp
next
  fix kvs :: "(string \<times> json) list" and x2 ns x
  assume a: "map_of kvs ''nodes'' = Some x2" "x2 = JList ns" "x \<in> set ns"
  from a(1) have "size x2 < Suc (size_list (size_prod (\<lambda>_. 0) size) kvs)"
    by (rule size_map_of)
  moreover from a(3) have "size x < Suc (size_list size ns)"
    by (rule size_in_set)
  ultimately show "(x, JObj kvs) \<in> measure size"
    using a(2) by simp
qed

text \<open>
  A node is the node of a record when it shows the name of the record and holds the
  children of the record in the order of their names, at every level below it: it has
  no \<^verbatim>\<open>nodes\<close> key when the record has no child; otherwise the names under \<^verbatim>\<open>nodes\<close>,
  in the order emitted, are the sorted list of the names of the children of the record,
  and each node there is in turn the node of one of these children.
\<close>

function serialized :: "item list \<Rightarrow> item \<Rightarrow> json \<Rightarrow> bool" where
  "serialized db it (JObj kvs) =
     (map_of kvs ''text'' = Some (JStr (name it))
      \<and> (case map_of kvs ''nodes'' of
            None \<Rightarrow> children db it = []
          | Some (JList ns) \<Rightarrow>
              children db it \<noteq> []
              \<and> those (map node_text ns) = Some (sort (map name (children db it)))
              \<and> list_all (\<lambda>n. list_ex (\<lambda>c. serialized db c n) (children db it)) ns
          | Some _ \<Rightarrow> False))"
| "serialized db it JNull = False"
| "serialized db it (JBool b) = False"
| "serialized db it (JInt i) = False"
| "serialized db it (JStr s) = False"
| "serialized db it (JList xs) = False"
  by pat_completeness auto
termination
proof (relation "measure (\<lambda>(db, it, j). size j)")
  show "wf (measure (\<lambda>(db :: item list, it :: item, j :: json). size j))" by simp
next
  fix db :: "item list" and it :: item and kvs :: "(string \<times> json) list" and x2 ns n c
  assume a: "map_of kvs ''nodes'' = Some x2" "x2 = JList ns" "n \<in> set ns"
  from a(1) have "size x2 < Suc (size_list (size_prod (\<lambda>_. 0) size) kvs)"
    by (rule size_map_of)
  moreover from a(3) have "size n < Suc (size_list size ns)"
    by (rule size_in_set)
  ultimately show "((db, c, n), (db, it, JObj kvs)) \<in> measure (\<lambda>(db, it, j). size j)"
    using a(2) by simp
qed

text \<open>
  The chain from a record up to a top-level record: the record first, then its parent,
  and so on; the last record of the chain has no parent. The records that \<^verbatim>\<open>get\<close>
  passes to \<^verbatim>\<open>itemToJson\<close>, directly or through the recursion, are the records that
  have such a chain.
\<close>

fun root_path :: "item list \<Rightarrow> item list \<Rightarrow> bool" where
  "root_path db [] = False"
| "root_path db [x] = (x \<in> set db \<and> parent x = None)"
| "root_path db (c # p # ps) =
     (c \<in> set db \<and> parent c = Some (item_id p) \<and> root_path db (p # ps))"

section \<open>AjaxMixin and the Ajax views\<close>

text \<open>
  A saved model instance as the views read it: its identifier and the result of
  \<^verbatim>\<open>obj.get_absolute_url()\<close>, which is \<open>None\<close> when the call raises \<^verbatim>\<open>AttributeError\<close>
  (the model defines no canonical URL; this is the one exception the views catch).
  \<^verbatim>\<open>obj.pk\<close> is Django's name for the primary key, which is the \<^verbatim>\<open>id\<close> field.
\<close>

record obj =
  obj_id :: int
  obj_get_absolute_url :: "string option"

definition pk :: "obj \<Rightarrow> int" where
  "pk ob = obj_id ob"

text \<open>
  A bound form: the result of \<^verbatim>\<open>form.is_valid()\<close>, and the instance that
  \<^verbatim>\<open>form.save()\<close> persists and returns.
\<close>

record form =
  is_valid :: bool
  save :: obj

text \<open>A value of a template context: a string, or a form object.\<close>

datatype cval = CStr string | CForm form

text \<open>
  The attributes of a view that mixes \<^verbatim>\<open>AjaxMixin\<close> in: the title and the template
  name of the class, the mapping its \<^verbatim>\<open>get_data()\<close> hook returns, and the template
  engine behind \<^verbatim>\<open>render_to_string\<close> (the template name and the context give the
  HTML string).
\<close>

record ajax_view =
  ajax_form_title :: string
  ajax_template_name :: string
  get_data :: "json dict"
  render_to_string :: "string \<Rightarrow> cval dict \<Rightarrow> string"

text \<open>The \<^verbatim>\<open>get_data\<close> of \<^verbatim>\<open>AjaxMixin\<close> itself: an empty mapping.\<close>

definition AjaxMixin_get_data :: "json dict" where
  "AjaxMixin_get_data = []"

text \<open>
  \<^verbatim>\<open>def renderJsonResponse(self, request, form=None, data={}, context={})\<close>: Python
  evaluates the two default dictionaries once, when the function is defined, and every
  call that omits the argument works on that one dictionary. The pair of them is the
  state of the process that the model passes along.
\<close>

record defaults =
  default_data :: "json dict"
  default_context :: "cval dict"

definition initial_defaults :: defaults where
  "initial_defaults = \<lparr>default_data = [], default_context = []\<rparr>"

text \<open>
  What a call of \<^verbatim>\<open>renderJsonResponse\<close> leaves behind: the payload of the
  \<^verbatim>\<open>JsonResponse\<close>, the \<^verbatim>\<open>data\<close> and \<^verbatim>\<open>context\<close> dictionaries as they are after
  the call (the objects the call assigned into: the caller's, or the shared defaults),
  and the shared defaults after the call.
\<close>

record rendered =
  response :: json
  data_after :: "json dict"
  context_after :: "cval dict"
  defaults_after :: defaults

text \<open>
  \<^verbatim>\<open>for key in fb.keys(): data[key] = fb[key]\<close>. The keys are those of \<open>fb\<close>
  itself, so the lookup \<^verbatim>\<open>fb[key]\<close> always finds a value.
\<close>

fun merge_keys :: "json dict \<Rightarrow> string list \<Rightarrow> json dict \<Rightarrow> json dict" where
  "merge_keys fb [] data = data"
| "merge_keys fb (key # keys) data =
     merge_keys fb keys
       (case map_of fb key of Some x \<Rightarrow> AList.update key x data | None \<Rightarrow> data)"

text \<open>
  An argument that is \<open>None\<close> is an omitted one. A form object is true in
  \<^verbatim>\<open>if form:\<close>; \<open>None\<close> is not.
\<close>

definition renderJsonResponse ::
  "ajax_view \<Rightarrow> form option \<Rightarrow> json dict option \<Rightarrow> cval dict option \<Rightarrow> defaults \<Rightarrow> rendered" where
  "renderJsonResponse v form_arg data_arg context_arg st =
     (let data = (case data_arg of None \<Rightarrow> default_data st | Some d \<Rightarrow> d);
          context = (case context_arg of None \<Rightarrow> default_context st | Some c \<Rightarrow> c);
          context = (case form_arg of
                       Some f \<Rightarrow> AList.update ''form'' (CForm f) context
                     | None \<Rightarrow> context);
          data = AList.update ''title'' (JStr (ajax_form_title v)) data;
          data = AList.update ''html_form''
                   (JStr (render_to_string v (ajax_template_name v) context)) data;
          fb = get_data v;
          data = merge_keys fb (map fst fb) data
      in \<lparr>response = JObj data,
          data_after = data,
          context_after = context,
          defaults_after =
            \<lparr>default_data = (case data_arg of None \<Rightarrow> data | Some d \<Rightarrow> default_data st),
             default_context = (case context_arg of None \<Rightarrow> context | Some c \<Rightarrow> default_context st)\<rparr>\<rparr>)"

subsection \<open>AjaxView and QRCodeView\<close>

definition AjaxView_post :: json where
  "AjaxView_post = JStr []"

definition AjaxView_get :: "ajax_view \<Rightarrow> defaults \<Rightarrow> rendered" where
  "AjaxView_get v st = renderJsonResponse v None None None st"

text \<open>
  The argument \<open>qr\<close> is what the \<^verbatim>\<open>get_qr_data()\<close> hook of the subclass returned:
  \<^verbatim>\<open>None\<close> or a string (the hook of \<^verbatim>\<open>QRCodeView\<close> itself returns \<^verbatim>\<open>None\<close>).
  \<^verbatim>\<open>if qr:\<close> is false for \<^verbatim>\<open>None\<close> and for the empty string.
\<close>

definition get_qr_data :: "string option" where
  "get_qr_data = None"

definition get_context_data :: "string option \<Rightarrow> cval dict" where
  "get_context_data qr =
     (let context = []
      in case qr of
           None \<Rightarrow> AList.update ''error_msg'' (CStr ''Error generating QR code'') context
         | Some s \<Rightarrow>
             if s \<noteq> [] then AList.update ''qr_data'' (CStr s) context
             else AList.update ''error_msg'' (CStr ''Error generating QR code'') context)"

datatype exn = KeyError string | Http404

text \<open>\<^verbatim>\<open>self.kwargs['pk']\<close> raises \<^verbatim>\<open>KeyError\<close> when the route captured no \<^verbatim>\<open>pk\<close>.\<close>

definition QRCodeView_get ::
  "ajax_view \<Rightarrow> int dict \<Rightarrow> string option \<Rightarrow> defaults \<Rightarrow> exn + rendered" where
  "QRCodeView_get v kwargs qr st =
     (case map_of kwargs ''pk'' of
        None \<Rightarrow> Inl (KeyError ''pk'')
      | Some k \<Rightarrow> Inr (renderJsonResponse v None None (Some (get_context_data qr)) st))"

subsection \<open>AjaxCreateView, AjaxUpdateView, AjaxDeleteView\<close>

definition AjaxCreateView_get :: "ajax_view \<Rightarrow> form \<Rightarrow> defaults \<Rightarrow> rendered" where
  "AjaxCreateView_get v form st = renderJsonResponse v (Some form) None None st"

definition AjaxCreateView_post :: "ajax_view \<Rightarrow> form \<Rightarrow> defaults \<Rightarrow> rendered" where
  "AjaxCreateView_post v form st =
     (let data = [(''form_valid'', JBool (is_valid form))];
          data = (if is_valid form then
                    (let ob = save form;
                         data = AList.update ''pk'' (JInt (pk ob)) data
                     in case obj_get_absolute_url ob of
                          Some url \<Rightarrow> AList.update ''url'' (JStr url) data
                        | None \<Rightarrow> data)
                  else data)
      in renderJsonResponse v (Some form) (Some data) None st)"

text \<open>
  \<^verbatim>\<open>self.get_object()\<close> gives the record the URL names, or raises \<^verbatim>\<open>Http404\<close>; the
  argument \<open>looked_up\<close> is the outcome of that lookup.
\<close>

definition AjaxUpdateView_post ::
  "ajax_view \<Rightarrow> obj option \<Rightarrow> form \<Rightarrow> defaults \<Rightarrow> exn + rendered" where
  "AjaxUpdateView_post v looked_up form st =
     (case looked_up of
        None \<Rightarrow> Inl Http404
      | Some object \<Rightarrow>
          (let data = [(''form_valid'', JBool (is_valid form))];
               data = (if is_valid form then
                         (let ob = save form;
                              data = AList.update ''pk'' (JInt (obj_id ob)) data
                          in case obj_get_absolute_url ob of
                               Some url \<Rightarrow> AList.update ''url'' (JStr url) data
                             | None \<Rightarrow> data)
                       else data)
           in Inr (renderJsonResponse v (Some form) (Some data) None st)))"

text \<open>
  The delete view works on the table of its model: \<^verbatim>\<open>get_object()\<close> finds the row
  whose primary key the URL gives (\<^verbatim>\<open>Http404\<close> when there is none), and
  \<^verbatim>\<open>obj.delete()\<close> removes the row with that primary key. The view returns the response
  and the table after the deletion.
\<close>

definition get_object :: "obj list \<Rightarrow> int \<Rightarrow> exn + obj" where
  "get_object table k =
     (case find (\<lambda>ob. pk ob = k) table of None \<Rightarrow> Inl Http404 | Some ob \<Rightarrow> Inr ob)"

definition delete :: "obj \<Rightarrow> obj list \<Rightarrow> obj list" where
  "delete ob table = filter (\<lambda>row. pk row \<noteq> pk ob) table"

definition AjaxDeleteView_post ::
  "ajax_view \<Rightarrow> obj list \<Rightarrow> int \<Rightarrow> defaults \<Rightarrow> exn + (rendered \<times> obj list)" where
  "AjaxDeleteView_post v table k st =
     (case get_object table k of
        Inl e \<Rightarrow> Inl e
      | Inr ob \<Rightarrow>
          (let ident = obj_id ob;
               table = delete ob table;
               data = [(''id'', JInt ident), (''delete'', JBool True)]
           in Inr (renderJsonResponse v None (Some data) None st, table)))"

section \<open>IndexView\<close>

text \<open>
  A part as the index page reads it: its two flags and the result of
  \<^verbatim>\<open>part.need_to_restock()\<close>, a method of the \<^verbatim>\<open>Part\<close> model that is not part of
  \<^verbatim>\<open>views.py\<close>: its result is taken as given for each part. A star is a row of the
  user's \<^verbatim>\<open>starred_parts\<close>.
\<close>

record part =
  part_id :: int
  purchaseable :: bool
  buildable :: bool
  need_to_restock :: bool

record star =
  star_part :: part

text \<open>A value of the page's context: a list of parts, or something the base class put there.\<close>

datatype pval = Parts "part list" | Other string

definition IndexView_get_context_data ::
  "pval dict \<Rightarrow> star list \<Rightarrow> part list \<Rightarrow> pval dict" where
  "IndexView_get_context_data base_context starred_parts part_objects =
     (let context = base_context;
          context = AList.update ''starred'' (Parts (map star_part starred_parts)) context;
          context = AList.update ''to_order''
                      (Parts (filter need_to_restock (filter purchaseable part_objects))) context;
          context = AList.update ''to_build''
                      (Parts (filter need_to_restock (filter buildable part_objects))) context
      in context)"

section \<open>Example data\<close>

text \<open>
  A small category tree: two top-level records, one of them with two children. The rows
  are stored in an order that is not the order of their names.
\<close>

definition example_db :: "item list" where
  "example_db =
     [\<lparr>item_id = 1, name = ''pear'', parent = None,
       get_absolute_url = ''/c/1/'', stock_item_count = 3\<rparr>,
      \<lparr>item_id = 2, name = ''apple'', parent = None,
       get_absolute_url = ''/c/2/'', stock_item_count = 4\<rparr>,
      \<lparr>item_id = 3, name = ''zeta'', parent = Some 2,
       get_absolute_url = ''/c/3/'', stock_item_count = 5\<rparr>,
      \<lparr>item_id = 4, name = ''beta'', parent = Some 2,
       get_absolute_url = ''/c/4/'', stock_item_count = 0\<rparr>]"

definition example_tree_view :: tree_view where
  "example_tree_view =
     \<lparr>title = ''Categories'', root_url = default_root_url, objects = example_db\<rparr>"

text \<open>
  A view with a template engine that shows which keys the context holds: the rendered
  string is the name of the template followed by the keys of the context.
\<close>

definition example_render :: "string \<Rightarrow> cval dict \<Rightarrow> string" where
  "example_render template context = template @ concat (map (\<lambda>kv. '' '' @ fst kv) context)"

definition example_view :: ajax_view where
  "example_view =
     \<lparr>ajax_form_title = ''Edit'', ajax_template_name = ''modal_form.html'',
      get_data = AjaxMixin_get_data, render_to_string = example_render\<rparr>"

definition example_valid_form :: form where
  "example_valid_form =
     \<lparr>is_valid = True, save = \<lparr>obj_id = 7, obj_get_absolute_url = Some ''/part/7/''\<rparr>\<rparr>"

definition example_valid_form_no_url :: form where
  "example_valid_form_no_url =
     \<lparr>is_valid = True, save = \<lparr>obj_id = 8, obj_get_absolute_url = None\<rparr>\<rparr>"

definition example_invalid_form :: form where
  "example_invalid_form =
     \<lparr>is_valid = False, save = \<lparr>obj_id = 9, obj_get_absolute_url = None\<rparr>\<rparr>"

text \<open>A table of two saved records, for the update and delete views.\<close>

definition example_table :: "obj list" where
  "example_table =
     [\<lparr>obj_id = 4, obj_get_absolute_url = Some ''/part/4/''\<rparr>,
      \<lparr>obj_id = 5, obj_get_absolute_url = Some ''/part/5/''\<rparr>]"

text \<open>Four parts with different flags, for the index page.\<close>

definition example_parts :: "part list" where
  "example_parts =
     [\<lparr>part_id = 1, purchaseable = True, buildable = False, need_to_restock = True\<rparr>,
      \<lparr>part_id = 2, purchaseable = True, buildable = True, need_to_restock = False\<rparr>,
      \<lparr>part_id = 3, purchaseable = False, buildable = True, need_to_restock = True\<rparr>,
      \<lparr>part_id = 4, purchaseable = False, buildable = False, need_to_restock = True\<rparr>]"

section \<open>Properties of TreeSerializer\<close>

subsection \<open>Auxiliary facts\<close>

lemma those_map_eq_Some:
  "those (map f xs) = Some ys \<longleftrightarrow> list_all2 (\<lambda>x y. f x = Some y) xs ys"
proof (induction xs arbitrary: ys)
  case Nil
  then show ?case by auto
next
  case (Cons x xs)
  then show ?case
    by (cases ys) (auto split: option.splits)
qed

lemma those_map_defined:
  "(\<And>x. x \<in> set xs \<Longrightarrow> f x \<noteq> None) \<Longrightarrow> those (map f xs) \<noteq> None"
  by (induction xs) (auto split: option.splits)

lemma itemToJson_text: "itemToJson db depth it = Some j \<Longrightarrow> node_text j = Some (name it)"
  by (cases depth) (auto simp: node_text_def Let_def AList.update_conv' split: if_splits option.splits)

lemma sorted_order_by_name: "sorted (map name (order_by_name xs))"
  by (simp add: order_by_name_def)

lemma set_order_by_name: "set (order_by_name xs) = set xs"
  by (simp add: order_by_name_def)

lemma mset_order_by_name: "mset (order_by_name xs) = mset xs"
  by (simp add: order_by_name_def)

lemma names_order_by_name: "map name (order_by_name xs) = sort (map name xs)"
proof -
  have "mset (map name (order_by_name xs)) = mset (map name xs)"
    by (simp add: mset_order_by_name)
  then show ?thesis
    using properties_for_sort[of "map name (order_by_name xs)" "map name xs"] sorted_order_by_name
    by simp
qed

lemma nodes_texts:
  assumes "those (map (itemToJson db depth) xs) = Some nodes"
  shows "those (map node_text nodes) = Some (map name xs)"
proof -
  from assms have "list_all2 (\<lambda>x y. itemToJson db depth x = Some y) xs nodes"
    by (simp add: those_map_eq_Some)
  then have "list_all2 (\<lambda>n s. node_text n = Some s) nodes (map name xs)"
    by (induction rule: list_all2_induct) (auto dest: itemToJson_text)
  then show ?thesis
    by (simp add: those_map_eq_Some)
qed

lemma itemToJson_sorted: "itemToJson db depth it = Some j \<Longrightarrow> siblings_sorted j"
proof (induction depth arbitrary: it j)
  case 0
  then show ?case by simp
next
  case (Suc depth)
  show ?case
  proof (cases "has_children db it")
    case False
    with Suc.prems show ?thesis by auto
  next
    case True
    let ?cs = "order_by_name (children db it)"
    from Suc.prems True obtain nodes where
      n: "those (map (itemToJson db depth) ?cs) = Some nodes" and
      j: "j = JObj (AList.update ''nodes'' (JList nodes)
               [(''pk'', JInt (item_id it)), (''text'', JStr (name it)),
                (''href'', JStr (get_absolute_url it)),
                (''tags'', JList [JInt (stock_item_count it)])])"
      by (auto simp: Let_def split: option.splits)
    from n have texts: "those (map node_text nodes) = Some (map name ?cs)"
      by (rule nodes_texts)
    from n have "list_all2 (\<lambda>x y. itemToJson db depth x = Some y) ?cs nodes"
      by (simp add: those_map_eq_Some)
    then have "list_all siblings_sorted nodes"
      by (induction rule: list_all2_induct) (auto intro: Suc.IH)
    with texts show ?thesis
      unfolding j by (simp add: sorted_order_by_name)
  qed
qed

lemma itemToJson_serialized: "itemToJson db depth it = Some j \<Longrightarrow> serialized db it j"
proof (induction depth arbitrary: it j)
  case 0
  then show ?case by simp
next
  case (Suc depth)
  show ?case
  proof (cases "has_children db it")
    case False
    with Suc.prems show ?thesis by (auto simp: has_children_def)
  next
    case True
    let ?cs = "order_by_name (children db it)"
    from Suc.prems True obtain nodes where
      n: "those (map (itemToJson db depth) ?cs) = Some nodes" and
      j: "j = JObj (AList.update ''nodes'' (JList nodes)
               [(''pk'', JInt (item_id it)), (''text'', JStr (name it)),
                (''href'', JStr (get_absolute_url it)),
                (''tags'', JList [JInt (stock_item_count it)])])"
      by (auto simp: Let_def split: option.splits)
    from n have texts: "those (map node_text nodes) = Some (sort (map name (children db it)))"
      using nodes_texts[OF n] by (simp add: names_order_by_name)
    from n have "list_all2 (\<lambda>x y. itemToJson db depth x = Some y) ?cs nodes"
      by (simp add: those_map_eq_Some)
    then have "list_all (\<lambda>n. list_ex (\<lambda>c. serialized db c n) ?cs) nodes"
      by (induction rule: list_all2_induct)
        (auto simp: list_all_iff list_ex_iff dest: Suc.IH)
    then have "list_all (\<lambda>n. list_ex (\<lambda>c. serialized db c n) (children db it)) nodes"
      by (simp add: list_ex_iff set_order_by_name)
    with texts True show ?thesis
      unfolding j by (simp add: has_children_def)
  qed
qed

lemma root_path_in_db: "root_path db xs \<Longrightarrow> set xs \<subseteq> set db"
  by (induction db xs rule: root_path.induct) auto

lemma root_path_suffix: "root_path db (xs @ y # ys) \<Longrightarrow> root_path db (y # ys)"
proof (induction xs)
  case Nil
  then show ?case by simp
next
  case (Cons x xs)
  then show ?case by (cases xs) auto
qed

lemma root_path_unique:
  assumes d: "distinct (map item_id db)"
  shows "root_path db (x # ps) \<Longrightarrow> root_path db (x # qs) \<Longrightarrow> ps = qs"
proof (induction ps arbitrary: x qs)
  case Nil
  then show ?case by (cases qs) auto
next
  case (Cons p ps)
  from Cons.prems(1) have px: "parent x = Some (item_id p)" and rp: "root_path db (p # ps)"
    by auto
  from Cons.prems(2) px obtain q qs' where qs: "qs = q # qs'" by (cases qs) auto
  with Cons.prems(2) have qx: "parent x = Some (item_id q)" and rq: "root_path db (q # qs')"
    by auto
  from rp rq have "p \<in> set db" "q \<in> set db"
    using root_path_in_db by fastforce+
  moreover from px qx have "item_id p = item_id q" by simp
  ultimately have "p = q"
    using d by (meson distinct_map inj_onD)
  with rp rq Cons.IH have "ps = qs'" by blast
  with \<open>p = q\<close> qs show ?case by simp
qed

lemma root_path_distinct:
  assumes d: "distinct (map item_id db)"
  shows "root_path db xs \<Longrightarrow> distinct xs"
proof (induction xs)
  case Nil
  then show ?case by simp
next
  case (Cons x xs)
  show ?case
  proof (cases xs)
    case Nil
    then show ?thesis by simp
  next
    case (Cons y ys)
    with Cons.prems have "root_path db xs" by simp
    then have dx: "distinct xs" by (rule Cons.IH)
    have "x \<notin> set xs"
    proof
      assume "x \<in> set xs"
      then obtain us vs where s: "xs = us @ x # vs"
        by (auto dest: split_list)
      with Cons.prems have "root_path db ((x # us) @ x # vs)" by simp
      then have "root_path db (x # vs)" by (rule root_path_suffix)
      with Cons.prems have "xs = vs"
        using root_path_unique[OF d] by blast
      with s show False by simp
    qed
    with dx show ?thesis by simp
  qed
qed

lemma root_path_length:
  assumes "distinct (map item_id db)" "root_path db xs"
  shows "length xs \<le> length db"
proof -
  have "length xs = card (set xs)"
    using root_path_distinct[OF assms] by (simp add: distinct_card)
  also have "\<dots> \<le> card (set db)"
    using root_path_in_db[OF assms(2)] by (simp add: card_mono)
  also have "\<dots> \<le> length db" by (rule card_length)
  finally show ?thesis .
qed

lemma itemToJson_returns:
  assumes d: "distinct (map item_id db)"
  shows "root_path db (it # ps) \<Longrightarrow> length db < depth + length (it # ps)
    \<Longrightarrow> itemToJson db depth it \<noteq> None"
proof (induction depth arbitrary: it ps)
  case 0
  with root_path_length[OF d] show ?case by fastforce
next
  case (Suc depth)
  have "itemToJson db depth c \<noteq> None" if "c \<in> set (order_by_name (children db it))" for c
  proof -
    from that have "c \<in> set db" "parent c = Some (item_id it)"
      by (auto simp: set_order_by_name children_def)
    with Suc.prems(1) have "root_path db (c # it # ps)" by simp
    moreover from Suc.prems(2) have "length db < depth + length (c # it # ps)" by simp
    ultimately show ?thesis by (rule Suc.IH)
  qed
  then have "those (map (itemToJson db depth) (order_by_name (children db it))) \<noteq> None"
    by (rule those_map_defined)
  then show ?case by (auto simp: Let_def)
qed

lemma get_loop_eq:
  "get_loop db depth items nodes top_count =
     (case those (map (itemToJson db depth) items) of
        None \<Rightarrow> None
      | Some js \<Rightarrow> Some (nodes @ js, top_count + sum_list (map stock_item_count items)))"
  by (induction items arbitrary: nodes top_count) (auto split: option.splits simp: algebra_simps)

lemma sum_order_by_name:
  "sum_list (map stock_item_count (order_by_name xs)) = sum_list (map stock_item_count xs)"
proof -
  have "mset (map stock_item_count (order_by_name xs)) = mset (map stock_item_count xs)"
    by (simp add: mset_order_by_name)
  then show ?thesis
    by (metis sum_mset_sum_list)
qed

lemma get_returns:
  assumes "distinct (map item_id (objects v))" and "length (objects v) \<le> depth"
  shows "\<exists>nodes.
           those (map (itemToJson (objects v) depth)
             (order_by_name (filter (\<lambda>i. parent i = None) (objects v)))) = Some nodes
         \<and> TreeSerializer_get v depth =
             Some (JObj [(''tree'', JList [JObj
               [(''pk'', JNull), (''text'', JStr (title v)), (''href'', JStr (root_url v)),
                (''nodes'', JList nodes),
                (''tags'', JList [JInt (sum_list (map stock_item_count
                   (filter (\<lambda>i. parent i = None) (objects v))))])]])])"
proof -
  let ?tops = "order_by_name (filter (\<lambda>i. parent i = None) (objects v))"
  have "itemToJson (objects v) depth it \<noteq> None" if "it \<in> set ?tops" for it
  proof -
    from that have "root_path (objects v) [it]"
      by (simp add: set_order_by_name)
    moreover from assms(2) have "length (objects v) < depth + length [it]" by simp
    ultimately show ?thesis by (rule itemToJson_returns[OF assms(1)])
  qed
  then have "those (map (itemToJson (objects v) depth) ?tops) \<noteq> None"
    by (rule those_map_defined)
  then show ?thesis
    by (auto simp: TreeSerializer_get_def get_loop_eq sum_order_by_name)
qed

text \<open>The response of the example, computed: every level is in the order of the names.\<close>

lemma example_tree:
  "TreeSerializer_get example_tree_view 4 =
     Some (JObj [(''tree'', JList [JObj
       [(''pk'', JNull), (''text'', JStr ''Categories''), (''href'', JStr ''#''),
        (''nodes'', JList
           [JObj [(''pk'', JInt 2), (''text'', JStr ''apple''), (''href'', JStr ''/c/2/''),
                  (''tags'', JList [JInt 4]),
                  (''nodes'', JList
                     [JObj [(''pk'', JInt 4), (''text'', JStr ''beta''),
                            (''href'', JStr ''/c/4/''), (''tags'', JList [JInt 0])],
                      JObj [(''pk'', JInt 3), (''text'', JStr ''zeta''),
                            (''href'', JStr ''/c/3/''), (''tags'', JList [JInt 5])]])],
            JObj [(''pk'', JInt 1), (''text'', JStr ''pear''), (''href'', JStr ''/c/1/''),
                  (''tags'', JList [JInt 3])]]),
        (''tags'', JList [JInt 7])]])])"
  by (simp add: TreeSerializer_get_def example_tree_view_def example_db_def default_root_url_def
      order_by_name_def children_def has_children_def numeral_nat)

subsection \<open>C1: the siblings are in the order of their names\<close>

text \<open>
  Claim C1. For a table whose identifiers are unique, \<^verbatim>\<open>get\<close> returns a response as
  soon as the allowed call depth is the number of rows at least. The nodes under the
  synthetic root are the top-level records (the rows without a parent) in the order of
  their names: the names emitted are the sorted list of the names of these rows, and
  each node is the node of one of them. Below, at every level, the list under
  \<^verbatim>\<open>nodes\<close> of the node of a record holds the children of that record, none left out,
  in ascending order of their names.
\<close>

theorem tree_siblings_sorted_by_name:
  assumes "distinct (map item_id (objects v))" and "length (objects v) \<le> depth"
  shows "\<exists>top nodes.
           TreeSerializer_get v depth = Some (JObj [(''tree'', JList [JObj top])])
         \<and> map_of top ''nodes'' = Some (JList nodes)
         \<and> those (map node_text nodes)
             = Some (sort (map name (filter (\<lambda>i. parent i = None) (objects v))))
         \<and> list_all (\<lambda>n. list_ex (\<lambda>r. serialized (objects v) r n)
               (filter (\<lambda>i. parent i = None) (objects v))) nodes
         \<and> siblings_sorted (JObj top)"
proof -
  let ?roots = "filter (\<lambda>i. parent i = None) (objects v)"
  let ?tops = "order_by_name ?roots"
  from get_returns[OF assms] obtain nodes where
    n: "those (map (itemToJson (objects v) depth) ?tops) = Some nodes" and
    g: "TreeSerializer_get v depth =
          Some (JObj [(''tree'', JList [JObj
            [(''pk'', JNull), (''text'', JStr (title v)), (''href'', JStr (root_url v)),
             (''nodes'', JList nodes),
             (''tags'', JList [JInt (sum_list (map stock_item_count
                (filter (\<lambda>i. parent i = None) (objects v))))])]])])"
    by blast
  from n have texts: "those (map node_text nodes) = Some (map name ?tops)"
    by (rule nodes_texts)
  from n have l2: "list_all2 (\<lambda>x y. itemToJson (objects v) depth x = Some y) ?tops nodes"
    by (simp add: those_map_eq_Some)
  then have all: "list_all siblings_sorted nodes"
    by (induction rule: list_all2_induct) (auto intro: itemToJson_sorted)
  from l2 have "list_all (\<lambda>n. list_ex (\<lambda>r. serialized (objects v) r n) ?tops) nodes"
    by (induction rule: list_all2_induct)
      (auto simp: list_all_iff list_ex_iff dest: itemToJson_serialized)
  then have ser: "list_all (\<lambda>n. list_ex (\<lambda>r. serialized (objects v) r n) ?roots) nodes"
    by (simp add: list_ex_iff set_order_by_name)
  have "sorted (map name ?tops)" by (rule sorted_order_by_name)
  with texts all ser g show ?thesis
    by (simp add: names_order_by_name)
qed

theorem tree_siblings_sorted_by_name_witness:
  "distinct (map item_id (objects example_tree_view))
   \<and> length (objects example_tree_view) \<le> 4
   \<and> (\<exists>top nodes.
           TreeSerializer_get example_tree_view 4 = Some (JObj [(''tree'', JList [JObj top])])
         \<and> map_of top ''nodes'' = Some (JList nodes)
         \<and> those (map node_text nodes) = Some [''apple'', ''pear'']
         \<and> list_all (\<lambda>n. list_ex (\<lambda>r. serialized (objects example_tree_view) r n)
               (filter (\<lambda>i. parent i = None) (objects example_tree_view))) nodes
         \<and> siblings_sorted (JObj top))"
proof -
  have d: "distinct (map item_id (objects example_tree_view))"
    by (simp add: example_tree_view_def example_db_def)
  have l: "length (objects example_tree_view) \<le> 4"
    by (simp add: example_tree_view_def example_db_def)
  have s: "sort (map name (filter (\<lambda>i. parent i = None) (objects example_tree_view)))
             = [''apple'', ''pear'']"
    by (simp add: example_tree_view_def example_db_def)
  from tree_siblings_sorted_by_name[OF d l] d l show ?thesis
    unfolding s by blast
qed

text \<open>
  On the example: the node emitted for the record \<open>apple\<close> is the node of that record;
  the same node with its children left out, or with its children in the other order, is
  not.
\<close>

lemma example_serialized: "serialized example_db (example_db ! 1)
     (JObj [(''pk'', JInt 2), (''text'', JStr ''apple''), (''href'', JStr ''/c/2/''),
            (''tags'', JList [JInt 4]),
            (''nodes'', JList
               [JObj [(''pk'', JInt 4), (''text'', JStr ''beta''),
                      (''href'', JStr ''/c/4/''), (''tags'', JList [JInt 0])],
                JObj [(''pk'', JInt 3), (''text'', JStr ''zeta''),
                      (''href'', JStr ''/c/3/''), (''tags'', JList [JInt 5])]])])"
  by (simp add: example_db_def children_def node_text_def)

lemma example_dropped_children_rejected: "\<not> serialized example_db (example_db ! 1)
     (JObj [(''pk'', JInt 2), (''text'', JStr ''apple''), (''href'', JStr ''/c/2/''),
            (''tags'', JList [JInt 4]), (''nodes'', JList [])])"
  by (simp add: example_db_def children_def node_text_def)

lemma example_unsorted_children_rejected: "\<not> serialized example_db (example_db ! 1)
     (JObj [(''pk'', JInt 2), (''text'', JStr ''apple''), (''href'', JStr ''/c/2/''),
            (''tags'', JList [JInt 4]),
            (''nodes'', JList
               [JObj [(''pk'', JInt 3), (''text'', JStr ''zeta''),
                      (''href'', JStr ''/c/3/''), (''tags'', JList [JInt 5])],
                JObj [(''pk'', JInt 4), (''text'', JStr ''beta''),
                      (''href'', JStr ''/c/4/''), (''tags'', JList [JInt 0])]])])"
  by (simp add: example_db_def children_def node_text_def)

subsection \<open>C2: the nodes key\<close>

text \<open>
  Claim C2. Whenever \<^verbatim>\<open>itemToJson\<close> returns a node for a record, the node is a
  dictionary that has the key \<^verbatim>\<open>nodes\<close> if and only if the record has at least one
  child; for a record without children the key is absent (not an empty list). The call
  does return a node for every record that has a chain of ancestors up to a top-level
  record, in a table with unique identifiers, once the allowed call depth is the number
  of rows at least.
\<close>

theorem nodes_key_iff_children:
  "(itemToJson db depth it = Some j \<longrightarrow>
      (\<exists>data. j = JObj data \<and> has_key ''nodes'' data = (children db it \<noteq> [])
         \<and> (children db it = [] \<longrightarrow> map_of data ''nodes'' = None)))
   \<and> (distinct (map item_id db) \<and> root_path db (it # ancestors) \<and> length db \<le> depth \<longrightarrow>
        itemToJson db depth it \<noteq> None)"
proof (intro conjI impI)
  assume "itemToJson db depth it = Some j"
  then show "\<exists>data. j = JObj data \<and> has_key ''nodes'' data = (children db it \<noteq> [])
         \<and> (children db it = [] \<longrightarrow> map_of data ''nodes'' = None)"
    by (cases depth)
      (auto simp: has_key_def has_children_def Let_def split: if_splits option.splits)
next
  assume a: "distinct (map item_id db) \<and> root_path db (it # ancestors) \<and> length db \<le> depth"
  then have "length db < depth + length (it # ancestors)" by simp
  with a show "itemToJson db depth it \<noteq> None"
    using itemToJson_returns by blast
qed

theorem nodes_key_iff_children_witness:
  "distinct (map item_id example_db) \<and> length example_db \<le> 4
   \<and> root_path example_db [example_db ! 1]
   \<and> children example_db (example_db ! 1) \<noteq> []
   \<and> (\<exists>data. itemToJson example_db 4 (example_db ! 1) = Some (JObj data)
         \<and> has_key ''nodes'' data)
   \<and> root_path example_db [example_db ! 3, example_db ! 1]
   \<and> children example_db (example_db ! 3) = []
   \<and> (\<exists>data. itemToJson example_db 4 (example_db ! 3) = Some (JObj data)
         \<and> \<not> has_key ''nodes'' data \<and> map_of data ''nodes'' = None)"
proof -
  have d: "distinct (map item_id example_db)" and l: "length example_db \<le> 4"
    by (simp_all add: example_db_def)
  have r1: "root_path example_db [example_db ! 1]"
    and r3: "root_path example_db [example_db ! 3, example_db ! 1]"
    by (simp_all add: example_db_def)
  have c1: "children example_db (example_db ! 1) \<noteq> []"
    and c3: "children example_db (example_db ! 3) = []"
    by (simp_all add: example_db_def children_def)
  from nodes_key_iff_children[of example_db 4 "example_db ! 1" _ "[]"] d r1 l
  obtain j1 where "itemToJson example_db 4 (example_db ! 1) = Some j1" by blast
  with nodes_key_iff_children[of example_db 4 "example_db ! 1" j1 "[]"] c1
  have n1: "\<exists>data. itemToJson example_db 4 (example_db ! 1) = Some (JObj data)
         \<and> has_key ''nodes'' data"
    by auto
  from nodes_key_iff_children[of example_db 4 "example_db ! 3" _ "[example_db ! 1]"] d r3 l
  obtain j3 where "itemToJson example_db 4 (example_db ! 3) = Some j3" by blast
  with nodes_key_iff_children[of example_db 4 "example_db ! 3" j3 "[]"] c3
  have n3: "\<exists>data. itemToJson example_db 4 (example_db ! 3) = Some (JObj data)
         \<and> \<not> has_key ''nodes'' data \<and> map_of data ''nodes'' = None"
    by auto
  from d l r1 c1 n1 r3 c3 n3 show ?thesis by blast
qed

subsection \<open>C3: the root node\<close>

text \<open>
  Claim C3. The synthetic root node of the response has \<^verbatim>\<open>pk\<close> null, and the one
  entry of its \<^verbatim>\<open>tags\<close> is the sum of \<^verbatim>\<open>stock_item_count\<close> over the top-level records
  (the rows without a parent) only: the counts of the records below them are not added.
\<close>

theorem root_tags_sum_top_level:
  assumes "distinct (map item_id (objects v))" and "length (objects v) \<le> depth"
  shows "\<exists>top. TreeSerializer_get v depth = Some (JObj [(''tree'', JList [JObj top])])
         \<and> map_of top ''pk'' = Some JNull
         \<and> map_of top ''tags'' =
             Some (JList [JInt (sum_list (map stock_item_count
                (filter (\<lambda>i. parent i = None) (objects v))))])"
  using get_returns[OF assms] by auto

theorem root_tags_sum_top_level_witness:
  "distinct (map item_id (objects example_tree_view))
   \<and> length (objects example_tree_view) \<le> 4
   \<and> sum_list (map stock_item_count (objects example_tree_view)) = 12
   \<and> (\<exists>top. TreeSerializer_get example_tree_view 4 = Some (JObj [(''tree'', JList [JObj top])])
         \<and> map_of top ''pk'' = Some JNull
         \<and> map_of top ''tags'' = Some (JList [JInt 7]))"
proof -
  have d: "distinct (map item_id (objects example_tree_view))"
    by (simp add: example_tree_view_def example_db_def)
  have l: "length (objects example_tree_view) \<le> 4"
    by (simp add: example_tree_view_def example_db_def)
  have s: "sum_list (map stock_item_count
             (filter (\<lambda>i. parent i = None) (objects example_tree_view))) = 7"
    by (simp add: example_tree_view_def example_db_def)
  have a: "sum_list (map stock_item_count (objects example_tree_view)) = 12"
    by (simp add: example_tree_view_def example_db_def)
  from root_tags_sum_top_level[OF d l] d l a show ?thesis
    unfolding s by blast
qed

section \<open>Properties of renderJsonResponse\<close>

subsection \<open>Auxiliary facts\<close>

lemma has_key_map_of: "has_key k d = (map_of d k \<noteq> None)"
  by (simp add: has_key_def map_of_eq_None_iff)

lemma map_of_merge_keys:
  "map_of (merge_keys fb keys data) k =
     (if k \<in> set keys \<and> map_of fb k \<noteq> None then map_of fb k else map_of data k)"
  by (induction keys arbitrary: data) (auto simp: AList.update_conv' split: option.splits)

lemma map_of_merge_all:
  "map_of (merge_keys fb (map fst fb) data) k =
     (case map_of fb k of Some x \<Rightarrow> Some x | None \<Rightarrow> map_of data k)"
  by (auto simp: map_of_merge_keys split: option.splits dest: map_of_SomeD intro: rev_image_eqI)

lemma response_renderJsonResponse:
  "response (renderJsonResponse v form_arg data_arg context_arg st) =
     JObj (data_after (renderJsonResponse v form_arg data_arg context_arg st))"
  by (simp add: renderJsonResponse_def Let_def)

lemma map_of_data_after:
  "map_of (data_after (renderJsonResponse v form_arg data_arg context_arg st)) k =
     (case map_of (get_data v) k of
        Some x \<Rightarrow> Some x
      | None \<Rightarrow>
          if k = ''html_form'' then
            Some (JStr (render_to_string v (ajax_template_name v)
              (context_after (renderJsonResponse v form_arg data_arg context_arg st))))
          else if k = ''title'' then Some (JStr (ajax_form_title v))
          else map_of (case data_arg of None \<Rightarrow> default_data st | Some d \<Rightarrow> d) k)"
  by (simp add: renderJsonResponse_def Let_def map_of_merge_all AList.update_conv'
      split: option.splits)

lemma has_key_data_after:
  "has_key x (data_after (renderJsonResponse v form_arg data_arg context_arg st)) =
     (has_key x (get_data v) \<or> x = ''html_form'' \<or> x = ''title''
      \<or> has_key x (case data_arg of None \<Rightarrow> default_data st | Some d \<Rightarrow> d))"
  by (simp add: has_key_map_of map_of_data_after split: option.splits)

lemma get_object_Inr: "get_object table k = Inr ob \<Longrightarrow> ob \<in> set table \<and> pk ob = k"
  by (auto simp: get_object_def find_Some_iff split: option.splits)

lemma defaults_after_omitted:
  "default_data (defaults_after (renderJsonResponse v form_arg None context_arg st))
     = data_after (renderJsonResponse v form_arg None context_arg st)"
  "default_context (defaults_after (renderJsonResponse v form_arg data_arg None st))
     = context_after (renderJsonResponse v form_arg data_arg None st)"
  by (simp_all add: renderJsonResponse_def Let_def)

lemma context_after_eq:
  "context_after (renderJsonResponse v form_arg data_arg context_arg st) =
     (let context = (case context_arg of None \<Rightarrow> default_context st | Some c \<Rightarrow> c)
      in case form_arg of Some f \<Rightarrow> AList.update ''form'' (CForm f) context | None \<Rightarrow> context)"
  by (simp add: renderJsonResponse_def Let_def)

subsection \<open>C8: the extension mapping wins\<close>

text \<open>
  Claim C8. \<^verbatim>\<open>renderJsonResponse\<close> assigns the keys of the \<^verbatim>\<open>get_data()\<close> mapping
  after it has set \<^verbatim>\<open>title\<close> and \<^verbatim>\<open>html_form\<close>. So under every key of that mapping
  the response holds the value the mapping gives, whatever the caller's \<^verbatim>\<open>data\<close> or the
  view itself had put there, \<^verbatim>\<open>title\<close> and \<^verbatim>\<open>html_form\<close> included; where the mapping
  has no such key, \<^verbatim>\<open>title\<close> is the title of the class and \<^verbatim>\<open>html_form\<close> the rendered
  template.
\<close>

theorem extension_data_wins:
  "\<exists>data. response (renderJsonResponse v form_arg data_arg context_arg st) = JObj data
     \<and> (\<forall>k x. map_of (get_data v) k = Some x \<longrightarrow> map_of data k = Some x)
     \<and> (\<not> has_key ''title'' (get_data v) \<longrightarrow>
          map_of data ''title'' = Some (JStr (ajax_form_title v)))
     \<and> (\<not> has_key ''html_form'' (get_data v) \<longrightarrow>
          (\<exists>html. map_of data ''html_form'' = Some (JStr html)))"
  by (simp add: response_renderJsonResponse map_of_data_after has_key_map_of)

theorem extension_data_wins_witness:
  "map_of (get_data (example_view\<lparr>get_data := [(''title'', JStr ''Mine''), (''extra'', JInt 1)]\<rparr>))
      ''title'' = Some (JStr ''Mine'')
   \<and> ajax_form_title (example_view\<lparr>get_data := [(''title'', JStr ''Mine''), (''extra'', JInt 1)]\<rparr>)
      = ''Edit''
   \<and> \<not> has_key ''html_form''
        (get_data (example_view\<lparr>get_data := [(''title'', JStr ''Mine''), (''extra'', JInt 1)]\<rparr>))
   \<and> (\<exists>data. response (renderJsonResponse
          (example_view\<lparr>get_data := [(''title'', JStr ''Mine''), (''extra'', JInt 1)]\<rparr>)
          None (Some [(''title'', JStr ''Caller'')]) None initial_defaults) = JObj data
        \<and> map_of data ''title'' = Some (JStr ''Mine'')
        \<and> (\<exists>html. map_of data ''html_form'' = Some (JStr html)))"
proof -
  let ?v = "example_view\<lparr>get_data := [(''title'', JStr ''Mine''), (''extra'', JInt 1)]\<rparr>"
  have t: "map_of (get_data ?v) ''title'' = Some (JStr ''Mine'')"
    and a: "ajax_form_title ?v = ''Edit''"
    and h: "\<not> has_key ''html_form'' (get_data ?v)"
    by (simp_all add: example_view_def has_key_def)
  from extension_data_wins[of ?v None "Some [(''title'', JStr ''Caller'')]" None initial_defaults]
  obtain data where
    "response (renderJsonResponse ?v None (Some [(''title'', JStr ''Caller'')]) None
       initial_defaults) = JObj data"
    "\<forall>k x. map_of (get_data ?v) k = Some x \<longrightarrow> map_of data k = Some x"
    "\<not> has_key ''html_form'' (get_data ?v) \<longrightarrow> (\<exists>html. map_of data ''html_form'' = Some (JStr html))"
    by blast
  with t a h show ?thesis by blast
qed

text \<open>The response of the witness, computed.\<close>

lemma example_extension_overrides:
  "response (renderJsonResponse
      (example_view\<lparr>get_data := [(''title'', JStr ''Mine''), (''extra'', JInt 1)]\<rparr>)
      None (Some [(''title'', JStr ''Caller'')]) None initial_defaults)
   = JObj [(''title'', JStr ''Mine''), (''html_form'', JStr ''modal_form.html''),
           (''extra'', JInt 1)]"
  by (simp add: renderJsonResponse_def example_view_def example_render_def initial_defaults_def
      Let_def)

subsection \<open>C10: the default dictionaries are shared between calls\<close>

text \<open>
  Claim C10. \<^verbatim>\<open>renderJsonResponse\<close> assigns into the dictionaries it is given. A call
  that omits \<^verbatim>\<open>data\<close> and \<^verbatim>\<open>context\<close> assigns into the two default dictionaries of
  the function, which every such call shares: after a first call with a form, the
  shared context holds the form and the shared data holds \<^verbatim>\<open>title\<close>, \<^verbatim>\<open>html_form\<close>
  and the keys of \<^verbatim>\<open>get_data()\<close> beside what was there before. A later call that omits
  the arguments and passes no form (of any view) starts from these dictionaries: its
  template context still holds the form of the first call, and every key of the first
  response is a key of its response. A call that is given both dictionaries leaves the
  defaults as they were.
\<close>

theorem default_dictionaries_are_shared:
  fixes v v' :: ajax_view and f :: form and st :: defaults
  defines "first \<equiv> renderJsonResponse v (Some f) None None st"
  defines "later \<equiv> renderJsonResponse v' None None None (defaults_after first)"
  shows "data_after first = default_data (defaults_after first)
       \<and> context_after first = default_context (defaults_after first)
       \<and> context_after first = AList.update ''form'' (CForm f) (default_context st)
       \<and> set (map fst (default_data st)) \<union> {''title'', ''html_form''} \<union> set (map fst (get_data v))
            = set (map fst (data_after first))
       \<and> map_of (context_after later) ''form'' = Some (CForm f)
       \<and> set (map fst (data_after first)) \<subseteq> set (map fst (data_after later))
       \<and> defaults_after (renderJsonResponse v (Some f) (Some d) (Some c) st) = st"
proof -
  have 1: "data_after first = default_data (defaults_after first)"
    and 2: "context_after first = default_context (defaults_after first)"
    unfolding first_def by (simp_all add: defaults_after_omitted)
  have 3: "context_after first = AList.update ''form'' (CForm f) (default_context st)"
    unfolding first_def by (simp add: context_after_eq)
  have k1: "has_key x (data_after first)
      = (has_key x (default_data st) \<or> x = ''title'' \<or> x = ''html_form'' \<or> has_key x (get_data v))"
    for x
    unfolding first_def has_key_data_after by auto
  have 4: "set (map fst (default_data st)) \<union> {''title'', ''html_form''} \<union> set (map fst (get_data v))
            = set (map fst (data_after first))"
  proof (rule set_eqI)
    fix x
    show "x \<in> set (map fst (default_data st)) \<union> {''title'', ''html_form''}
               \<union> set (map fst (get_data v))
          \<longleftrightarrow> x \<in> set (map fst (data_after first))"
      using k1[of x] unfolding has_key_def by auto
  qed
  have "context_after later = context_after first"
    unfolding later_def by (simp add: context_after_eq 2)
  with 3 have 5: "map_of (context_after later) ''form'' = Some (CForm f)"
    by (simp add: AList.update_conv')
  have 6: "set (map fst (data_after first)) \<subseteq> set (map fst (data_after later))"
  proof
    fix x
    assume "x \<in> set (map fst (data_after first))"
    then have "has_key x (default_data (defaults_after first))"
      by (simp add: has_key_def 1)
    then have "has_key x (data_after later)"
      unfolding later_def has_key_data_after by simp
    then show "x \<in> set (map fst (data_after later))"
      by (simp add: has_key_def)
  qed
  have 7: "defaults_after (renderJsonResponse v (Some f) (Some d) (Some c) st) = st"
    by (simp add: renderJsonResponse_def Let_def)
  from 1 2 3 4 5 6 7 show ?thesis by blast
qed

theorem default_dictionaries_are_shared_witness:
  "defaults_after (AjaxCreateView_get (example_view\<lparr>get_data := [(''pk'', JInt 3)]\<rparr>)
       example_valid_form initial_defaults)
     = \<lparr>default_data = [(''title'', JStr ''Edit''),
                        (''html_form'', JStr ''modal_form.html form''), (''pk'', JInt 3)],
        default_context = [(''form'', CForm example_valid_form)]\<rparr>
   \<and> response (AjaxView_get example_view
        (defaults_after (AjaxCreateView_get (example_view\<lparr>get_data := [(''pk'', JInt 3)]\<rparr>)
           example_valid_form initial_defaults)))
     = JObj [(''title'', JStr ''Edit''), (''html_form'', JStr ''modal_form.html form''),
             (''pk'', JInt 3)]
   \<and> response (AjaxView_get example_view initial_defaults)
     = JObj [(''title'', JStr ''Edit''), (''html_form'', JStr ''modal_form.html'')]
   \<and> map_of (context_after (AjaxView_get example_view
        (defaults_after (AjaxCreateView_get (example_view\<lparr>get_data := [(''pk'', JInt 3)]\<rparr>)
           example_valid_form initial_defaults)))) ''form'' = Some (CForm example_valid_form)"
proof -
  let ?v = "example_view\<lparr>get_data := [(''pk'', JInt 3)]\<rparr>"
  have a: "defaults_after (AjaxCreateView_get ?v example_valid_form initial_defaults)
     = \<lparr>default_data = [(''title'', JStr ''Edit''),
                        (''html_form'', JStr ''modal_form.html form''), (''pk'', JInt 3)],
        default_context = [(''form'', CForm example_valid_form)]\<rparr>"
    by (simp add: AjaxCreateView_get_def renderJsonResponse_def example_view_def
        example_render_def initial_defaults_def Let_def)
  have b: "response (AjaxView_get example_view
        (defaults_after (AjaxCreateView_get ?v example_valid_form initial_defaults)))
     = JObj [(''title'', JStr ''Edit''), (''html_form'', JStr ''modal_form.html form''),
             (''pk'', JInt 3)]"
    unfolding a
    by (simp add: AjaxView_get_def renderJsonResponse_def example_view_def
        example_render_def AjaxMixin_get_data_def Let_def)
  have c: "response (AjaxView_get example_view initial_defaults)
     = JObj [(''title'', JStr ''Edit''), (''html_form'', JStr ''modal_form.html'')]"
    by (simp add: AjaxView_get_def renderJsonResponse_def example_view_def
        example_render_def AjaxMixin_get_data_def initial_defaults_def Let_def)
  from default_dictionaries_are_shared[of ?v example_valid_form initial_defaults example_view]
  have "map_of (context_after (renderJsonResponse example_view None None None
          (defaults_after (renderJsonResponse ?v (Some example_valid_form) None None
             initial_defaults)))) ''form'' = Some (CForm example_valid_form)"
    by blast
  then have d: "map_of (context_after (AjaxView_get example_view
        (defaults_after (AjaxCreateView_get ?v example_valid_form initial_defaults)))) ''form''
      = Some (CForm example_valid_form)"
    by (simp add: AjaxView_get_def AjaxCreateView_get_def)
  from a b c d show ?thesis by blast
qed

section \<open>Properties of the create, update and delete views\<close>

subsection \<open>C4: form_valid and pk in the response of the create view\<close>

text \<open>
  Claim C4, as amended. The claim as stated fails for a view whose \<^verbatim>\<open>get_data()\<close>
  supplies the key \<^verbatim>\<open>pk\<close> or \<^verbatim>\<open>form_valid\<close>: \<^verbatim>\<open>renderJsonResponse\<close> assigns the keys
  of that mapping last, so its values replace the ones \<^verbatim>\<open>post\<close> has set (and add a
  \<^verbatim>\<open>pk\<close> to the response for an invalid form). For a view whose \<^verbatim>\<open>get_data()\<close> has
  neither key (the default mapping is empty): a POST always returns a response; if the
  form validates, \<^verbatim>\<open>form_valid\<close> is true and \<^verbatim>\<open>pk\<close> is the identifier of the
  record that \<^verbatim>\<open>form.save()\<close> returned; if it does not, \<^verbatim>\<open>form_valid\<close> is false and
  the response has no key \<^verbatim>\<open>pk\<close>.
\<close>

theorem create_post_form_valid_and_pk:
  assumes "\<not> has_key ''form_valid'' (get_data v)" and "\<not> has_key ''pk'' (get_data v)"
  shows "\<exists>data. response (AjaxCreateView_post v form st) = JObj data
           \<and> (is_valid form \<longrightarrow>
                 map_of data ''form_valid'' = Some (JBool True)
               \<and> map_of data ''pk'' = Some (JInt (pk (save form))))
           \<and> (\<not> is_valid form \<longrightarrow>
                 map_of data ''form_valid'' = Some (JBool False)
               \<and> \<not> has_key ''pk'' data)"
  using assms
  by (auto simp: AjaxCreateView_post_def Let_def response_renderJsonResponse map_of_data_after
      has_key_map_of AList.update_conv' split: option.splits)

theorem create_post_form_valid_and_pk_witness:
  "\<not> has_key ''form_valid'' (get_data example_view) \<and> \<not> has_key ''pk'' (get_data example_view)
   \<and> is_valid example_valid_form \<and> pk (save example_valid_form) = 7
   \<and> (\<exists>data. response (AjaxCreateView_post example_view example_valid_form initial_defaults)
                = JObj data
          \<and> map_of data ''form_valid'' = Some (JBool True)
          \<and> map_of data ''pk'' = Some (JInt 7))
   \<and> \<not> is_valid example_invalid_form
   \<and> (\<exists>data. response (AjaxCreateView_post example_view example_invalid_form initial_defaults)
                = JObj data
          \<and> map_of data ''form_valid'' = Some (JBool False)
          \<and> \<not> has_key ''pk'' data)"
proof -
  have k: "\<not> has_key ''form_valid'' (get_data example_view)"
          "\<not> has_key ''pk'' (get_data example_view)"
    by (simp_all add: example_view_def AjaxMixin_get_data_def has_key_def)
  have f: "is_valid example_valid_form" "pk (save example_valid_form) = 7"
          "\<not> is_valid example_invalid_form"
    by (simp_all add: example_valid_form_def example_invalid_form_def pk_def)
  from create_post_form_valid_and_pk[OF k, of example_valid_form initial_defaults]
       create_post_form_valid_and_pk[OF k, of example_invalid_form initial_defaults] k f
  show ?thesis by auto
qed

theorem create_post_pk_counterexample:
  "is_valid example_valid_form \<and> pk (save example_valid_form) = 7
   \<and> response (AjaxCreateView_post (example_view\<lparr>get_data := [(''pk'', JInt 99)]\<rparr>)
        example_valid_form initial_defaults)
      = JObj [(''form_valid'', JBool True), (''pk'', JInt 99), (''url'', JStr ''/part/7/''),
              (''title'', JStr ''Edit''), (''html_form'', JStr ''modal_form.html form'')]
   \<and> \<not> is_valid example_invalid_form
   \<and> response (AjaxCreateView_post (example_view\<lparr>get_data := [(''pk'', JInt 99)]\<rparr>)
        example_invalid_form initial_defaults)
      = JObj [(''form_valid'', JBool False), (''title'', JStr ''Edit''),
              (''html_form'', JStr ''modal_form.html form''), (''pk'', JInt 99)]"
  by (simp add: AjaxCreateView_post_def renderJsonResponse_def example_view_def
      example_render_def initial_defaults_def example_valid_form_def example_invalid_form_def
      pk_def Let_def)

subsection \<open>C5: the url key\<close>

text \<open>
  Claim C5, as amended. The claim as stated fails for a view whose \<^verbatim>\<open>get_data()\<close>
  supplies the key \<^verbatim>\<open>url\<close>: that value is in the response whether the saved record
  has a canonical URL or not. For a view whose \<^verbatim>\<open>get_data()\<close> has no key \<^verbatim>\<open>url\<close>
  and a form that validates, in the create view and in the update view (for a record
  the lookup finds): when \<^verbatim>\<open>get_absolute_url()\<close> raises \<^verbatim>\<open>AttributeError\<close> the
  response is returned all the same and has no key \<^verbatim>\<open>url\<close>; when it returns a URL,
  the response holds that URL under \<^verbatim>\<open>url\<close>.
\<close>

theorem post_url_key:
  assumes "\<not> has_key ''url'' (get_data v)" and "is_valid form"
  shows "(\<exists>data. response (AjaxCreateView_post v form st) = JObj data
            \<and> (case obj_get_absolute_url (save form) of
                  None \<Rightarrow> \<not> has_key ''url'' data
                | Some url \<Rightarrow> map_of data ''url'' = Some (JStr url)))
       \<and> (\<exists>r data. AjaxUpdateView_post v (Some ob) form st = Inr r \<and> response r = JObj data
            \<and> (case obj_get_absolute_url (save form) of
                  None \<Rightarrow> \<not> has_key ''url'' data
                | Some url \<Rightarrow> map_of data ''url'' = Some (JStr url)))"
  using assms
  by (auto simp: AjaxCreateView_post_def AjaxUpdateView_post_def Let_def
      response_renderJsonResponse map_of_data_after has_key_map_of AList.update_conv'
      split: option.splits)

theorem post_url_key_witness:
  "\<not> has_key ''url'' (get_data example_view)
   \<and> is_valid example_valid_form_no_url
   \<and> obj_get_absolute_url (save example_valid_form_no_url) = None
   \<and> (\<exists>data. response (AjaxCreateView_post example_view example_valid_form_no_url
          initial_defaults) = JObj data \<and> \<not> has_key ''url'' data)
   \<and> (\<exists>r data. AjaxUpdateView_post example_view (Some (example_table ! 0))
          example_valid_form_no_url initial_defaults = Inr r
        \<and> response r = JObj data \<and> \<not> has_key ''url'' data)
   \<and> is_valid example_valid_form
   \<and> obj_get_absolute_url (save example_valid_form) = Some ''/part/7/''
   \<and> (\<exists>data. response (AjaxCreateView_post example_view example_valid_form
          initial_defaults) = JObj data \<and> map_of data ''url'' = Some (JStr ''/part/7/''))
   \<and> (\<exists>r data. AjaxUpdateView_post example_view (Some (example_table ! 0))
          example_valid_form initial_defaults = Inr r
        \<and> response r = JObj data \<and> map_of data ''url'' = Some (JStr ''/part/7/''))"
proof -
  have k: "\<not> has_key ''url'' (get_data example_view)"
    by (simp add: example_view_def AjaxMixin_get_data_def has_key_def)
  have v1: "is_valid example_valid_form_no_url" and v2: "is_valid example_valid_form"
    by (simp_all add: example_valid_form_no_url_def example_valid_form_def)
  have u1: "obj_get_absolute_url (save example_valid_form_no_url) = None"
    and u2: "obj_get_absolute_url (save example_valid_form) = Some ''/part/7/''"
    by (simp_all add: example_valid_form_no_url_def example_valid_form_def)
  from post_url_key[OF k v1, of initial_defaults "example_table ! 0"]
       post_url_key[OF k v2, of initial_defaults "example_table ! 0"] k v1 v2 u1 u2
  show ?thesis by simp
qed

theorem post_url_key_counterexample:
  "is_valid example_valid_form_no_url
   \<and> obj_get_absolute_url (save example_valid_form_no_url) = None
   \<and> response (AjaxCreateView_post (example_view\<lparr>get_data := [(''url'', JStr ''/list/'')]\<rparr>)
        example_valid_form_no_url initial_defaults)
      = JObj [(''form_valid'', JBool True), (''pk'', JInt 8), (''title'', JStr ''Edit''),
              (''html_form'', JStr ''modal_form.html form''), (''url'', JStr ''/list/'')]
   \<and> is_valid example_valid_form
   \<and> obj_get_absolute_url (save example_valid_form) = Some ''/part/7/''
   \<and> response (AjaxCreateView_post (example_view\<lparr>get_data := [(''url'', JStr ''/list/'')]\<rparr>)
        example_valid_form initial_defaults)
      = JObj [(''form_valid'', JBool True), (''pk'', JInt 7), (''url'', JStr ''/list/''),
              (''title'', JStr ''Edit''), (''html_form'', JStr ''modal_form.html form'')]"
  by (simp add: AjaxCreateView_post_def renderJsonResponse_def example_view_def
      example_render_def initial_defaults_def example_valid_form_def
      example_valid_form_no_url_def pk_def Let_def)

subsection \<open>C6: the delete view\<close>

text \<open>
  Claim C6, as amended. The response of a POST never has the keys \<^verbatim>\<open>id\<close> and
  \<^verbatim>\<open>delete\<close> only: \<^verbatim>\<open>renderJsonResponse\<close> adds \<^verbatim>\<open>title\<close> and \<^verbatim>\<open>html_form\<close>, and the
  keys of \<^verbatim>\<open>get_data()\<close>, whose values replace those of \<^verbatim>\<open>id\<close> and \<^verbatim>\<open>delete\<close> when
  the mapping has these keys. What holds, for a record the lookup finds and a view whose
  \<^verbatim>\<open>get_data()\<close> has neither \<^verbatim>\<open>id\<close> nor \<^verbatim>\<open>delete\<close>: a POST deletes the row without
  any further condition (afterwards the lookup of the same identifier fails), and the
  response holds the identifier of the deleted record under \<^verbatim>\<open>id\<close> and true under
  \<^verbatim>\<open>delete\<close>; its keys are exactly \<^verbatim>\<open>id\<close>, \<^verbatim>\<open>delete\<close>, \<^verbatim>\<open>title\<close>, \<^verbatim>\<open>html_form\<close>
  and those of \<^verbatim>\<open>get_data()\<close>.
\<close>

theorem delete_post_envelope:
  assumes "get_object table k = Inr ob"
    and "\<not> has_key ''id'' (get_data v)" and "\<not> has_key ''delete'' (get_data v)"
  shows "\<exists>r data table'.
           AjaxDeleteView_post v table k st = Inr (r, table')
         \<and> table' = filter (\<lambda>row. pk row \<noteq> k) table
         \<and> get_object table' k = Inl Http404
         \<and> response r = JObj data
         \<and> map_of data ''id'' = Some (JInt k)
         \<and> map_of data ''delete'' = Some (JBool True)
         \<and> set (map fst data)
             = {''id'', ''delete'', ''title'', ''html_form''} \<union> set (map fst (get_data v))"
proof -
  from assms(1) have ob: "pk ob = k" "obj_id ob = k"
    using get_object_Inr[OF assms(1)] by (simp_all add: pk_def)
  let ?t = "filter (\<lambda>row. pk row \<noteq> k) table"
  let ?r = "renderJsonResponse v None (Some [(''id'', JInt k), (''delete'', JBool True)]) None st"
  have p: "AjaxDeleteView_post v table k st = Inr (?r, ?t)"
    using assms(1) ob by (simp add: AjaxDeleteView_post_def delete_def Let_def)
  have g: "get_object ?t k = Inl Http404"
    by (auto simp: get_object_def find_None_iff split: option.splits)
  have i: "has_key x [(''id'', JInt k), (''delete'', JBool True)] = (x = ''id'' \<or> x = ''delete'')"
    for x
    by (simp add: has_key_def)
  have keys: "set (map fst (data_after ?r))
      = {''id'', ''delete'', ''title'', ''html_form''} \<union> set (map fst (get_data v))"
  proof (rule set_eqI)
    fix x
    have "has_key x (data_after ?r)
      = (has_key x (get_data v) \<or> x = ''html_form'' \<or> x = ''title''
         \<or> x = ''id'' \<or> x = ''delete'')"
      unfolding has_key_data_after by (simp add: i)
    then show "x \<in> set (map fst (data_after ?r)) \<longleftrightarrow>
      x \<in> {''id'', ''delete'', ''title'', ''html_form''} \<union> set (map fst (get_data v))"
      unfolding has_key_def by auto
  qed
  have vals: "map_of (data_after ?r) ''id'' = Some (JInt k)"
    "map_of (data_after ?r) ''delete'' = Some (JBool True)"
    using assms(2,3) by (simp_all add: map_of_data_after has_key_map_of)
  have "AjaxDeleteView_post v table k st = Inr (?r, ?t)
         \<and> ?t = filter (\<lambda>row. pk row \<noteq> k) table
         \<and> get_object ?t k = Inl Http404
         \<and> response ?r = JObj (data_after ?r)
         \<and> map_of (data_after ?r) ''id'' = Some (JInt k)
         \<and> map_of (data_after ?r) ''delete'' = Some (JBool True)
         \<and> set (map fst (data_after ?r))
             = {''id'', ''delete'', ''title'', ''html_form''} \<union> set (map fst (get_data v))"
    using p g keys vals by (simp add: response_renderJsonResponse)
  then show ?thesis by (intro exI)
qed

theorem delete_post_envelope_witness:
  "get_object example_table 5 = Inr (example_table ! 1)
   \<and> \<not> has_key ''id'' (get_data example_view) \<and> \<not> has_key ''delete'' (get_data example_view)
   \<and> (\<exists>r data.
         AjaxDeleteView_post example_view example_table 5 initial_defaults
           = Inr (r, [example_table ! 0])
       \<and> get_object [example_table ! 0] 5 = Inl Http404
       \<and> response r = JObj data
       \<and> map_of data ''id'' = Some (JInt 5)
       \<and> map_of data ''delete'' = Some (JBool True)
       \<and> set (map fst data) = {''id'', ''delete'', ''title'', ''html_form''})"
proof -
  have g: "get_object example_table 5 = Inr (example_table ! 1)"
    by (simp add: get_object_def example_table_def pk_def)
  have k: "\<not> has_key ''id'' (get_data example_view)"
          "\<not> has_key ''delete'' (get_data example_view)"
    by (simp_all add: example_view_def AjaxMixin_get_data_def has_key_def)
  have t: "filter (\<lambda>row. pk row \<noteq> 5) example_table = [example_table ! 0]"
    by (simp add: example_table_def pk_def)
  have e: "set (map fst (get_data example_view)) = {}"
    by (simp add: example_view_def AjaxMixin_get_data_def)
  from delete_post_envelope[OF g k, of initial_defaults] g k show ?thesis
    unfolding t e by auto
qed

theorem delete_post_envelope_counterexample:
  "(case AjaxDeleteView_post example_view example_table 5 initial_defaults of
      Inl e \<Rightarrow> False
    | Inr (r, table') \<Rightarrow>
        response r = JObj [(''id'', JInt 5), (''delete'', JBool True), (''title'', JStr ''Edit''),
                           (''html_form'', JStr ''modal_form.html'')]
        \<and> table' = [example_table ! 0])
   \<and> (case AjaxDeleteView_post (example_view\<lparr>get_data := [(''delete'', JBool False)]\<rparr>)
            example_table 5 initial_defaults of
        Inl e \<Rightarrow> False
      | Inr (r, table') \<Rightarrow>
          response r = JObj [(''id'', JInt 5), (''delete'', JBool False),
                             (''title'', JStr ''Edit''),
                             (''html_form'', JStr ''modal_form.html'')]
          \<and> table' = [example_table ! 0])"
  by (simp add: AjaxDeleteView_post_def get_object_def delete_def renderJsonResponse_def
      example_view_def example_render_def initial_defaults_def example_table_def
      AjaxMixin_get_data_def pk_def Let_def)

section \<open>Properties of QRCodeView and IndexView\<close>

subsection \<open>C7: the context of the QR code view\<close>

text \<open>
  Claim C7. When \<^verbatim>\<open>get_qr_data()\<close> returns a non-empty string, the context holds it
  under \<^verbatim>\<open>qr_data\<close> and has no key \<^verbatim>\<open>error_msg\<close>; when it returns \<^verbatim>\<open>None\<close> or the
  empty string, the context has the key \<^verbatim>\<open>error_msg\<close> and no key \<^verbatim>\<open>qr_data\<close>. In
  both cases a GET whose route supplies \<^verbatim>\<open>pk\<close> returns a response, rendered with that
  context.
\<close>

theorem qr_context_keys:
  "(qr = Some s \<and> s \<noteq> [] \<longrightarrow>
      map_of (get_context_data qr) ''qr_data'' = Some (CStr s)
    \<and> \<not> has_key ''error_msg'' (get_context_data qr))
   \<and> (qr = None \<or> qr = Some [] \<longrightarrow>
      has_key ''error_msg'' (get_context_data qr)
    \<and> \<not> has_key ''qr_data'' (get_context_data qr))
   \<and> (map_of kwargs ''pk'' = Some k \<longrightarrow>
      (\<exists>r. QRCodeView_get v kwargs qr st = Inr r \<and> context_after r = get_context_data qr))"
  by (auto simp: get_context_data_def has_key_def QRCodeView_get_def renderJsonResponse_def
      Let_def)

theorem qr_context_keys_witness:
  "get_context_data (Some ''part 12'') = [(''qr_data'', CStr ''part 12'')]
   \<and> map_of (get_context_data (Some ''part 12'')) ''qr_data'' = Some (CStr ''part 12'')
   \<and> \<not> has_key ''error_msg'' (get_context_data (Some ''part 12''))
   \<and> has_key ''error_msg'' (get_context_data get_qr_data)
   \<and> \<not> has_key ''qr_data'' (get_context_data get_qr_data)
   \<and> has_key ''error_msg'' (get_context_data (Some []))
   \<and> \<not> has_key ''qr_data'' (get_context_data (Some []))
   \<and> map_of [(''pk'', 12)] ''pk'' = Some (12::int)
   \<and> (\<exists>r. QRCodeView_get example_view [(''pk'', 12)] (Some ''part 12'') initial_defaults = Inr r
          \<and> context_after r = [(''qr_data'', CStr ''part 12'')])
   \<and> (\<exists>r. QRCodeView_get example_view [(''pk'', 12)] get_qr_data initial_defaults = Inr r
          \<and> context_after r = get_context_data None)"
proof -
  have c: "get_context_data (Some ''part 12'') = [(''qr_data'', CStr ''part 12'')]"
    by (simp add: get_context_data_def)
  have n: "get_qr_data = None" by (simp add: get_qr_data_def)
  have p: "map_of [(''pk'', 12)] ''pk'' = Some (12::int)" by simp
  from qr_context_keys[of "Some ''part 12''" "''part 12''" "[(''pk'', 12)]" 12 example_view
         initial_defaults]
       qr_context_keys[of None "[]" "[(''pk'', 12)]" 12 example_view initial_defaults]
       qr_context_keys[of "Some []" "[]" "[(''pk'', 12)]" 12 example_view initial_defaults]
       c n p
  show ?thesis by simp
qed

subsection \<open>C9: the lists of the index page\<close>

text \<open>
  Claim C9. In the context of the index page, \<^verbatim>\<open>to_order\<close> is the list of the parts
  that are purchaseable and need restocking, and no other part; \<^verbatim>\<open>to_build\<close> is the
  list of the parts that are buildable and need restocking, and no other part.
\<close>

theorem index_to_order_to_build:
  "\<exists>to_order to_build.
      map_of (IndexView_get_context_data base_context starred_parts part_objects) ''to_order''
        = Some (Parts to_order)
    \<and> map_of (IndexView_get_context_data base_context starred_parts part_objects) ''to_build''
        = Some (Parts to_build)
    \<and> to_order = filter (\<lambda>p. purchaseable p \<and> need_to_restock p) part_objects
    \<and> to_build = filter (\<lambda>p. buildable p \<and> need_to_restock p) part_objects
    \<and> set to_order = {p \<in> set part_objects. purchaseable p \<and> need_to_restock p}
    \<and> set to_build = {p \<in> set part_objects. buildable p \<and> need_to_restock p}"
  by (auto simp: IndexView_get_context_data_def Let_def AList.update_conv')

theorem index_to_order_to_build_witness:
  "map_of (IndexView_get_context_data [(''view'', Other ''IndexView'')] [] example_parts)
      ''to_order'' = Some (Parts [example_parts ! 0])
   \<and> map_of (IndexView_get_context_data [(''view'', Other ''IndexView'')] [] example_parts)
      ''to_build'' = Some (Parts [example_parts ! 2])"
proof -
  have o: "filter (\<lambda>p. purchaseable p \<and> need_to_restock p) example_parts = [example_parts ! 0]"
    and b: "filter (\<lambda>p. buildable p \<and> need_to_restock p) example_parts = [example_parts ! 2]"
    by (simp_all add: example_parts_def)
  from index_to_order_to_build[of "[(''view'', Other ''IndexView'')]" "[]" example_parts]
  show ?thesis unfolding o b by auto
qed

end
